theory Spec2Isabelle
  imports Complex_Main
begin

section \<open>Shared vocabulary of both pipelines\<close>

text \<open>
  The exception classes that the handlers of \<^verbatim>\<open>scrape_books.py\<close> and
  \<^verbatim>\<open>scrape_hn.py\<close> tell apart. Each constructor stands for a class together with
  whatever subclasses no handler distinguishes. \<open>ConnectionError\<close> is
  \<^verbatim>\<open>requests.exceptions.ConnectionError\<close>; \<open>RequestException\<close> is any other
  \<^verbatim>\<open>requests.exceptions.RequestException\<close> (a timeout, too many redirects);
  \<open>WebDriverException\<close> is any Selenium exception other than the two named ones.
  Every constructor is a subclass of Python's \<^verbatim>\<open>Exception\<close>.
\<close>

datatype py_exc =
    ConnectionError
  | RequestException
  | AttributeError
  | IndexError
  | TypeError
  | KeyError
  | ValueError
  | IOError
  | WebDriverException
  | TimeoutException
  | NoSuchElementException

text \<open>\<^verbatim>\<open>except requests.exceptions.RequestException\<close>: the class and its subclasses.\<close>

definition is_request_exception :: "py_exc \<Rightarrow> bool" where
  "is_request_exception e = (e = RequestException \<or> e = ConnectionError)"

text \<open>\<^verbatim>\<open>except WebDriverException\<close>: Selenium's base class and its subclasses.\<close>

definition is_webdriver_exception :: "py_exc \<Rightarrow> bool" where
  "is_webdriver_exception e =
     (e = WebDriverException \<or> e = TimeoutException \<or> e = NoSuchElementException)"

datatype level = DEBUG | INFO | WARNING | ERROR

text \<open>
  One constructor for each \<^verbatim>\<open>logging\<close> call of the two scripts; an attempt number is
  the \<^verbatim>\<open>attempt + 1\<close> that the message prints.
\<close>

datatype message =
    NoMoreBooks
  | CategoryAttemptFailed nat
  | CategoryGivenUp string
  | PageStatus int nat
  | PageRequestError nat
  | PageGivenUp string
  | BooksSaved nat
  | BooksWriteFailed
  | HnStarting
  | DriverStartAttempt nat
  | DriverStarted
  | DriverStartFailed nat
  | DriverStartGivenUp
  | NavigationAttempt nat
  | NavigationDone
  | NavigationFailed nat
  | NavigationGivenUp
  | RowsAttempt nat
  | RowsFound nat
  | RowsEmpty
  | RowsMissing nat
  | RowsGivenUp
  | NothingProcessed
  | ScoreMissing nat
  | ScoreUnparseable nat
  | ItemProcessed nat
  | ItemSkipped nat
  | ItemUnexpected nat
  | HnSaved nat
  | HnWriteFailed
  | GeneralError
  | DriverClosed

text \<open>
  Everything a run does to the outside world, in the order it does it: the trace of a
  run is the list of these events, oldest first.
\<close>

datatype event =
    PageGet string
  | BookGet string
  | Sleep nat
  | Log level message
  | OpenWrite string
  | DriverStart
  | DriverGet string
  | FindRows
  | DriverQuit

text \<open>
  The value handed to \<^verbatim>\<open>json.dump\<close>: a list of dicts whose values are strings,
  numbers or \<^verbatim>\<open>None\<close>. A dict keeps its keys in insertion order, so an object is
  an association list.
\<close>

datatype json =
    JNull
  | JInt int
  | JFloat real
  | JString string
  | JArray "json list"
  | JObject "(string \<times> json) list"

text \<open>
  What a file holds: nothing (it does not exist), a JSON document, or bytes that are
  not one (what a write that failed half-way may leave).
\<close>

datatype file_content = Absent | Document json | Garbage

text \<open>
  \<^verbatim>\<open>with open(output_file, "w", encoding="utf-8") as f: json.dump(...)\<close> either
  completes or raises \<^verbatim>\<open>IOError\<close>, and then leaves the file in a state that the
  program does not control.
\<close>

datatype write_outcome = WriteOk | WriteIOError file_content

section \<open>scrape_books.py\<close>

text \<open>
  A \<^verbatim>\<open>product_pod\<close> article, seen through the four lookups the loop body makes on
  it. Each lookup yields its value or the exception it raises (\<^verbatim>\<open>book.h3\<close> may be
  \<^verbatim>\<open>None\<close>, an attribute may be missing, \<^verbatim>\<open>float\<close> may reject the text). A price
  is the value of the parsed float; \<^verbatim>\<open>nan\<close> and the infinities are left out.
\<close>

record book_elem =
  title_attr :: "py_exc + string"
  price_float :: "py_exc + real"
  img_src :: "py_exc + string"
  href_attr :: "py_exc + string"

text \<open>
  A parsed document, seen through the two queries the script makes:
  \<^verbatim>\<open>soup.find_all("article", class_="product_pod")\<close> and
  \<^verbatim>\<open>soup.find("ul", class_="breadcrumb").find_all("a")[2].text.strip()\<close>. The second
  raises \<^verbatim>\<open>AttributeError\<close> when there is no breadcrumb and \<^verbatim>\<open>IndexError\<close> when it
  has fewer than three links.
\<close>

record html =
  product_pods :: "book_elem list"
  breadcrumb_category :: "py_exc + string"

record response =
  status_code :: int
  content :: html

text \<open>
  The network: what the \<open>n\<close>-th call of \<^verbatim>\<open>requests.get\<close> in a run returns for a
  URL, a response or a raised exception. Any server behaviour, including one that
  changes between attempts, is such a function.
\<close>

type_synonym web = "nat \<Rightarrow> string \<Rightarrow> py_exc + response"

text \<open>The dict appended at lines 82-89; \<open>Categoria\<close> may in principle be \<^verbatim>\<open>None\<close>.\<close>

record book =
  Titulo :: string
  Precio :: real
  Categoria :: "string option"
  URL_de_la_imagen :: string

text \<open>The four keys as the bytes written with \<^verbatim>\<open>ensure_ascii=False\<close> in UTF-8.\<close>

definition key_Titulo :: string where
  "key_Titulo = ''T'' @ [CHR 0xC3, CHR 0xAD] @ ''tulo''"

definition key_Precio :: string where
  "key_Precio = ''Precio''"

definition key_Categoria :: string where
  "key_Categoria = ''Categor'' @ [CHR 0xC3, CHR 0xAD] @ ''a''"

definition key_URL_de_la_imagen :: string where
  "key_URL_de_la_imagen = ''URL de la imagen''"

definition book_dict :: "book \<Rightarrow> json" where
  "book_dict b = JObject
     [(key_Titulo, JString (Titulo b)),
      (key_Precio, JFloat (Precio b)),
      (key_Categoria, (case Categoria b of None \<Rightarrow> JNull | Some c \<Rightarrow> JString c)),
      (key_URL_de_la_imagen, JString (URL_de_la_imagen b))]"

text \<open>The local variables of \<^verbatim>\<open>scrape_books\<close> and the world around it.\<close>

record bstate =
  requests_made :: nat
  trace :: "event list"
  all_books_data :: "book list"
  books_scraped :: nat
  books_json :: file_content

definition emit :: "event list \<Rightarrow> bstate \<Rightarrow> bstate" where
  "emit es s = s\<lparr>trace := trace s @ es\<rparr>"

definition base_url :: string where
  "base_url = ''https://books.toscrape.com/catalogue/''"

definition digit_char :: "nat \<Rightarrow> char" where
  "digit_char d = ''0123456789'' ! d"

text \<open>The decimal numeral an f-string prints for a non-negative integer.\<close>

fun str_nat :: "nat \<Rightarrow> string" where
  "str_nat n = (if n < 10 then [digit_char n] else str_nat (n div 10) @ [digit_char (n mod 10)])"

definition page_url :: "nat \<Rightarrow> string" where
  "page_url page_num = base_url @ ''page-'' @ str_nat page_num @ ''.html''"

text \<open>
  Lines 52-79, the loop \<^verbatim>\<open>for cat_attempt in range(max_retries)\<close> over the attempts
  still to make. \<open>Inr (Some c)\<close>: the \<^verbatim>\<open>break\<close> of line 66 with the category;
  \<open>Inr None\<close>: the \<^verbatim>\<open>else\<close> of the loop, the category still \<^verbatim>\<open>None\<close>;
  \<open>Inl e\<close>: an exception that line 67 does not catch.
\<close>

fun category_attempts ::
  "web \<Rightarrow> nat \<Rightarrow> string \<Rightarrow> nat list \<Rightarrow> bstate \<Rightarrow> (py_exc + string option) \<times> bstate" where
  "category_attempts get retry_delay book_url [] s =
     (Inr None, emit [Log ERROR (CategoryGivenUp book_url)] s)"
| "category_attempts get retry_delay book_url (cat_attempt # rest) s =
     (let s1 = emit [BookGet book_url] (s\<lparr>requests_made := Suc (requests_made s)\<rparr>) in
      case get (requests_made s) book_url of
        Inl e \<Rightarrow>
          if e = ConnectionError \<or> e = AttributeError
          then category_attempts get retry_delay book_url rest
                 (emit [Log WARNING (CategoryAttemptFailed (cat_attempt + 1)), Sleep retry_delay] s1)
          else (Inl e, s1)
      | Inr book_response \<Rightarrow>
          (case breadcrumb_category (content book_response) of
             Inl e \<Rightarrow>
               if e = ConnectionError \<or> e = AttributeError
               then category_attempts get retry_delay book_url rest
                      (emit [Log WARNING (CategoryAttemptFailed (cat_attempt + 1)), Sleep retry_delay] s1)
               else (Inl e, s1)
           | Inr category \<Rightarrow> (Inr (Some category), s1)))"

text \<open>
  How the loop \<^verbatim>\<open>for book in books\<close> (lines 41-96) ends: by running out of books
  (its \<^verbatim>\<open>else\<close>, line 95) or by the \<^verbatim>\<open>break\<close> of line 93.
\<close>

datatype books_exit = BooksExhausted | TargetReached

fun books_loop ::
  "web \<Rightarrow> int \<Rightarrow> real \<Rightarrow> nat \<Rightarrow> nat \<Rightarrow> book_elem list \<Rightarrow> bstate \<Rightarrow> (py_exc + books_exit) \<times> bstate" where
  "books_loop get num_books price_limit max_retries retry_delay [] s = (Inr BooksExhausted, s)"
| "books_loop get num_books price_limit max_retries retry_delay (book # rest) s =
     (case title_attr book of
        Inl e \<Rightarrow> (Inl e, s)
      | Inr title \<Rightarrow>
     (case price_float book of
        Inl e \<Rightarrow> (Inl e, s)
      | Inr price \<Rightarrow>
          if price < price_limit then
            (case img_src book of
               Inl e \<Rightarrow> (Inl e, s)
             | Inr src \<Rightarrow>
            (case href_attr book of
               Inl e \<Rightarrow> (Inl e, s)
             | Inr href \<Rightarrow>
                 (let image_url = base_url @ src;
                      book_url = base_url @ href in
                  case category_attempts get retry_delay book_url [0..<max_retries] s of
                    (Inl e, s1) \<Rightarrow> (Inl e, s1)
                  | (Inr None, s1) \<Rightarrow>
                      books_loop get num_books price_limit max_retries retry_delay rest s1
                  | (Inr (Some category), s1) \<Rightarrow>
                      (let s2 = s1\<lparr>all_books_data := all_books_data s1 @
                                     [\<lparr>Titulo = title, Precio = price,
                                       Categoria = Some category,
                                       URL_de_la_imagen = image_url\<rparr>],
                                   books_scraped := books_scraped s1 + 1\<rparr> in
                       if int (books_scraped s2) \<ge> num_books then (Inr TargetReached, s2)
                       else books_loop get num_books price_limit max_retries retry_delay rest s2))))
          else books_loop get num_books price_limit max_retries retry_delay rest s))"

text \<open>
  How the loop \<^verbatim>\<open>for attempt in range(max_retries)\<close> (lines 30-116) ends: by one of
  the \<^verbatim>\<open>break\<close>s of lines 39, 96 and 98, or by its \<^verbatim>\<open>else\<close> (line 112).
\<close>

datatype page_exit = PageBreak | PageGivenUpExit

fun page_attempts ::
  "web \<Rightarrow> int \<Rightarrow> real \<Rightarrow> nat \<Rightarrow> nat \<Rightarrow> string \<Rightarrow> nat list \<Rightarrow> bstate \<Rightarrow> (py_exc + page_exit) \<times> bstate" where
  "page_attempts get num_books price_limit max_retries retry_delay url [] s =
     (Inr PageGivenUpExit, emit [Log ERROR (PageGivenUp url)] s)"
| "page_attempts get num_books price_limit max_retries retry_delay url (attempt # rest) s =
     (let s1 = emit [PageGet url] (s\<lparr>requests_made := Suc (requests_made s)\<rparr>) in
      case get (requests_made s) url of
        Inl e \<Rightarrow>
          if is_request_exception e
          then page_attempts get num_books price_limit max_retries retry_delay url rest
                 (emit [Log ERROR (PageRequestError (attempt + 1)), Sleep retry_delay] s1)
          else (Inl e, s1)
      | Inr response \<Rightarrow>
          if status_code response = 200 then
            (let books = product_pods (content response) in
             if books = [] then (Inr PageBreak, emit [Log INFO NoMoreBooks] s1)
             else
               (case books_loop get num_books price_limit max_retries retry_delay books s1 of
                  (Inl e, s2) \<Rightarrow>
                    if is_request_exception e
                    then page_attempts get num_books price_limit max_retries retry_delay url rest
                           (emit [Log ERROR (PageRequestError (attempt + 1)), Sleep retry_delay] s2)
                    else (Inl e, s2)
                | (Inr _, s2) \<Rightarrow> (Inr PageBreak, s2)))
          else page_attempts get num_books price_limit max_retries retry_delay url rest
                 (emit [Log WARNING (PageStatus (status_code response) (attempt + 1)),
                        Sleep retry_delay] s1))"

text \<open>
  The loop \<^verbatim>\<open>while books_scraped < num_books\<close> (lines 27-118). Nothing bounds the
  number of pages it visits, so the model counts its iterations against a fuel and
  yields \<open>None\<close> when the fuel runs out before the loop ends.
\<close>

fun pagination ::
  "nat \<Rightarrow> web \<Rightarrow> int \<Rightarrow> real \<Rightarrow> nat \<Rightarrow> nat \<Rightarrow> nat \<Rightarrow> bstate \<Rightarrow> ((py_exc + unit) \<times> bstate) option" where
  "pagination fuel get num_books price_limit max_retries retry_delay page_num s =
     (if int (books_scraped s) < num_books then
        (case fuel of
           0 \<Rightarrow> None
         | Suc fuel' \<Rightarrow>
             (case page_attempts get num_books price_limit max_retries retry_delay
                     (page_url page_num) [0..<max_retries] s of
                (Inl e, s1) \<Rightarrow> Some (Inl e, s1)
              | (Inr PageGivenUpExit, s1) \<Rightarrow> Some (Inr (), s1)
              | (Inr PageBreak, s1) \<Rightarrow>
                  pagination fuel' get num_books price_limit max_retries retry_delay
                    (page_num + 1) s1))
      else Some (Inr (), s))"

text \<open>Lines 120-129: the write of \<^verbatim>\<open>books.json\<close>, whose \<^verbatim>\<open>IOError\<close> is caught.\<close>

definition save_books :: "write_outcome \<Rightarrow> bstate \<Rightarrow> bstate" where
  "save_books wr s =
     (case wr of
        WriteOk \<Rightarrow>
          emit [OpenWrite ''books.json'', Log INFO (BooksSaved (books_scraped s))]
            (s\<lparr>books_json := Document (JArray (map book_dict (all_books_data s)))\<rparr>)
      | WriteIOError left \<Rightarrow>
          emit [OpenWrite ''books.json'', Log ERROR BooksWriteFailed]
            (s\<lparr>books_json := left\<rparr>))"

definition initial_bstate :: "file_content \<Rightarrow> bstate" where
  "initial_bstate old =
     \<lparr>requests_made = 0, trace = [], all_books_data = [], books_scraped = 0, books_json = old\<rparr>"

text \<open>
  \<^verbatim>\<open>scrape_books(num_books, price_limit, max_retries, retry_delay)\<close>, run against a
  network \<open>get\<close>, a file system that answers the final write with \<open>wr\<close>, and a
  \<^verbatim>\<open>books.json\<close> that held \<open>old\<close>. \<open>None\<close>: the pagination loop outlived the fuel;
  \<open>Some (Inl e, s)\<close>: \<open>e\<close> left the function uncaught; \<open>Some (Inr (), s)\<close>: it
  returned.
\<close>

definition scrape_books ::
  "nat \<Rightarrow> web \<Rightarrow> write_outcome \<Rightarrow> file_content \<Rightarrow> int \<Rightarrow> real \<Rightarrow> nat \<Rightarrow> nat
     \<Rightarrow> ((py_exc + unit) \<times> bstate) option" where
  "scrape_books fuel get wr old num_books price_limit max_retries retry_delay =
     (case pagination fuel get num_books price_limit max_retries retry_delay 1 (initial_bstate old) of
        None \<Rightarrow> None
      | Some (Inl e, s) \<Rightarrow> Some (Inl e, s)
      | Some (Inr u, s) \<Rightarrow> Some (Inr (), save_books wr s))"

section \<open>scrape_hn.py\<close>

definition MAX_RETRIES :: nat where
  "MAX_RETRIES = 3"

definition RETRY_DELAY :: nat where
  "RETRY_DELAY = 2"

definition hn_url :: string where
  "hn_url = ''https://news.ycombinator.com/''"

text \<open>
  A \<^verbatim>\<open>tr.athing\<close> row, seen through the lookups of lines 146-159. \<open>title_anchor\<close>:
  the anchor found by \<^verbatim>\<open>row.find_element\<close>, as its \<^verbatim>\<open>text\<close> and its \<^verbatim>\<open>href\<close>
  attribute (\<^verbatim>\<open>get_attribute\<close> gives \<^verbatim>\<open>None\<close> for a missing attribute), or the
  exception raised. \<open>following_sibling\<close>: the lookup of the next table row, and inside
  it the outcome of lines 155-159, the parsed score or the exception of
  \<^verbatim>\<open>find_element\<close>, \<^verbatim>\<open>split()[0]\<close> or \<^verbatim>\<open>int\<close>.
\<close>

record row_elem =
  title_anchor :: "py_exc + (string \<times> string option)"
  following_sibling :: "py_exc + (py_exc + int)"

text \<open>The dict appended at line 169.\<close>

record headline =
  title :: string
  score :: int
  url :: "string option"

definition headline_dict :: "headline \<Rightarrow> json" where
  "headline_dict h = JObject
     [(''title'', JString (title h)),
      (''score'', JInt (score h)),
      (''url'', (case url h of None \<Rightarrow> JNull | Some u \<Rightarrow> JString u))]"

text \<open>
  The browser and the file system of one run: what the attempt numbered \<open>attempt\<close> of
  each retry loop meets (\<open>None\<close>: the call went through), and how the final write ends.
\<close>

record hn_world =
  start_webdriver :: "nat \<Rightarrow> py_exc option"
  driver_get :: "nat \<Rightarrow> py_exc option"
  find_elements :: "nat \<Rightarrow> py_exc + row_elem list"
  write_file :: write_outcome

text \<open>
  How a stretch of the function body ends: it falls through to the next statement with
  a value, it executes \<^verbatim>\<open>return\<close>, or an exception leaves it.
\<close>

datatype 'a flow = Continue 'a | Return "headline list" | Raise py_exc

text \<open>
  Lines 48-68. \<open>Continue True\<close>: \<^verbatim>\<open>driver\<close> is set (line 57); \<open>Continue False\<close>:
  the loop ended with \<^verbatim>\<open>driver\<close> still \<^verbatim>\<open>None\<close>.
\<close>

fun start_attempts :: "hn_world \<Rightarrow> nat list \<Rightarrow> event list \<Rightarrow> bool flow \<times> event list" where
  "start_attempts w [] tr = (Continue False, tr)"
| "start_attempts w (attempt # rest) tr =
     (let tr1 = tr @ [Log INFO (DriverStartAttempt (attempt + 1)), DriverStart] in
      case start_webdriver w attempt of
        None \<Rightarrow> (Continue True, tr1 @ [Log INFO DriverStarted])
      | Some e \<Rightarrow>
          if is_webdriver_exception e then
            (let tr2 = tr1 @ [Log WARNING (DriverStartFailed (attempt + 1))] in
             if int attempt < int MAX_RETRIES - 1
             then start_attempts w rest (tr2 @ [Sleep RETRY_DELAY])
             else (Return [], tr2 @ [Log ERROR DriverStartGivenUp]))
          else (Raise e, tr1))"

text \<open>Lines 76-99.\<close>

fun navigate_attempts :: "hn_world \<Rightarrow> nat list \<Rightarrow> event list \<Rightarrow> unit flow \<times> event list" where
  "navigate_attempts w [] tr = (Continue (), tr)"
| "navigate_attempts w (attempt # rest) tr =
     (let tr1 = tr @ [Log INFO (NavigationAttempt (attempt + 1)), DriverGet hn_url] in
      case driver_get w attempt of
        None \<Rightarrow> (Continue (), tr1 @ [Log INFO NavigationDone, Sleep RETRY_DELAY])
      | Some e \<Rightarrow>
          if is_webdriver_exception e \<or> e = TimeoutException then
            (let tr2 = tr1 @ [Log WARNING (NavigationFailed (attempt + 1))] in
             if int attempt < int MAX_RETRIES - 1
             then navigate_attempts w rest (tr2 @ [Sleep RETRY_DELAY])
             else (Return [], tr2 @ [Log ERROR NavigationGivenUp, DriverQuit]))
          else (Raise e, tr1))"

text \<open>
  Lines 104-130. \<open>Continue rows\<close> is the value of \<^verbatim>\<open>rows\<close> after the loop: the rows
  of the attempt that found some, or the empty list it started with.
\<close>

fun find_attempts :: "hn_world \<Rightarrow> nat list \<Rightarrow> event list \<Rightarrow> row_elem list flow \<times> event list" where
  "find_attempts w [] tr = (Continue [], tr)"
| "find_attempts w (attempt # rest) tr =
     (let tr1 = tr @ [Log INFO (RowsAttempt (attempt + 1)), FindRows] in
      case find_elements w attempt of
        Inr rows \<Rightarrow>
          if rows \<noteq> [] then (Continue rows, tr1 @ [Log INFO (RowsFound (length rows))])
          else find_attempts w rest (tr1 @ [Log WARNING RowsEmpty, Sleep RETRY_DELAY])
      | Inl e \<Rightarrow>
          if e = NoSuchElementException then
            (let tr2 = tr1 @ [Log WARNING (RowsMissing (attempt + 1))] in
             if int attempt < int MAX_RETRIES - 1
             then find_attempts w rest (tr2 @ [Sleep RETRY_DELAY])
             else (Return [], tr2 @ [Log ERROR RowsGivenUp, DriverQuit]))
          else (Raise e, tr1))"

text \<open>
  The two handlers of lines 174-181, which end the iteration for a row without
  appending anything.
\<close>

definition row_handler :: "py_exc \<Rightarrow> nat \<Rightarrow> event" where
  "row_handler e i =
     (if e = NoSuchElementException then Log WARNING (ItemSkipped (i + 1))
      else Log ERROR (ItemUnexpected (i + 1)))"

text \<open>Lines 140-181, \<^verbatim>\<open>for i, row in enumerate(rows)\<close> from index \<open>i\<close> on.\<close>

fun rows_loop :: "nat \<Rightarrow> row_elem list \<Rightarrow> headline list \<Rightarrow> event list \<Rightarrow> headline list \<times> event list" where
  "rows_loop i [] news_items tr = (news_items, tr)"
| "rows_loop i (row # rest) news_items tr =
     (case title_anchor row of
        Inl e \<Rightarrow> rows_loop (i + 1) rest news_items (tr @ [row_handler e i])
      | Inr (title_text, href) \<Rightarrow>
     (case following_sibling row of
        Inl e \<Rightarrow> rows_loop (i + 1) rest news_items (tr @ [row_handler e i])
      | Inr (Inr parsed) \<Rightarrow>
          rows_loop (i + 1) rest
            (news_items @ [\<lparr>title = title_text, score = parsed, url = href\<rparr>])
            (tr @ [Log INFO (ItemProcessed (i + 1))])
      | Inr (Inl e) \<Rightarrow>
          if e = NoSuchElementException then
            rows_loop (i + 1) rest
              (news_items @ [\<lparr>title = title_text, score = 0, url = href\<rparr>])
              (tr @ [Log DEBUG (ScoreMissing (i + 1)), Log INFO (ItemProcessed (i + 1))])
          else if e = ValueError \<or> e = IndexError then
            rows_loop (i + 1) rest
              (news_items @ [\<lparr>title = title_text, score = 0, url = href\<rparr>])
              (tr @ [Log WARNING (ScoreUnparseable (i + 1)), Log INFO (ItemProcessed (i + 1))])
          else rows_loop (i + 1) rest news_items (tr @ [row_handler e i])))"

record hstate =
  htrace :: "event list"
  hn_json :: file_content

text \<open>Lines 183-193: both branches return \<^verbatim>\<open>news_items\<close>.\<close>

definition save_headlines ::
  "write_outcome \<Rightarrow> string \<Rightarrow> headline list \<Rightarrow> hstate \<Rightarrow> headline list \<times> hstate" where
  "save_headlines wr output_file news_items s =
     (case wr of
        WriteOk \<Rightarrow>
          (news_items,
           \<lparr>htrace = htrace s @ [OpenWrite output_file, Log INFO (HnSaved (length news_items))],
            hn_json = Document (JArray (map headline_dict news_items))\<rparr>)
      | WriteIOError left \<Rightarrow>
          (news_items,
           \<lparr>htrace = htrace s @ [OpenWrite output_file, Log ERROR HnWriteFailed],
            hn_json = left\<rparr>))"

text \<open>
  The body of the \<^verbatim>\<open>try\<close> of line 73, up to line 193: it ends in a \<^verbatim>\<open>return\<close>
  (\<open>Inr\<close>) or in an exception (\<open>Inl\<close>).
\<close>

definition try_body :: "hn_world \<Rightarrow> string \<Rightarrow> hstate \<Rightarrow> (py_exc + headline list) \<times> hstate" where
  "try_body w output_file s =
     (case navigate_attempts w [0..<MAX_RETRIES] (htrace s) of
        (Raise e, tr1) \<Rightarrow> (Inl e, s\<lparr>htrace := tr1\<rparr>)
      | (Return r, tr1) \<Rightarrow> (Inr r, s\<lparr>htrace := tr1\<rparr>)
      | (Continue u, tr1) \<Rightarrow>
          (case find_attempts w [0..<MAX_RETRIES] tr1 of
             (Raise e, tr2) \<Rightarrow> (Inl e, s\<lparr>htrace := tr2\<rparr>)
           | (Return r, tr2) \<Rightarrow> (Inr r, s\<lparr>htrace := tr2\<rparr>)
           | (Continue rows, tr2) \<Rightarrow>
               if rows = []
               then (Inr [], s\<lparr>htrace := tr2 @ [Log WARNING NothingProcessed, DriverQuit]\<rparr>)
               else
                 (case rows_loop 0 rows [] tr2 of
                    (news_items, tr3) \<Rightarrow>
                      (case save_headlines (write_file w) output_file news_items
                              (s\<lparr>htrace := tr3\<rparr>) of
                         (r, s1) \<Rightarrow> (Inr r, s1)))))"

text \<open>
  \<^verbatim>\<open>scrape_hacker_news(output_file)\<close>, run in the world \<open>w\<close> with an output file that
  held \<open>old\<close>. \<open>Inl e\<close>: \<open>e\<close> left the function uncaught; \<open>Inr items\<close>: it returned
  \<open>items\<close>. Lines 195-204 are the last case: the handler of line 195 turns an
  exception of the body into \<^verbatim>\<open>return []\<close>, and the \<^verbatim>\<open>finally\<close> clause runs
  after either ending of the body.
\<close>

definition scrape_hacker_news ::
  "hn_world \<Rightarrow> string \<Rightarrow> file_content \<Rightarrow> (py_exc + headline list) \<times> hstate" where
  "scrape_hacker_news w output_file old =
     (case start_attempts w [0..<MAX_RETRIES] [Log INFO HnStarting] of
        (Raise e, tr) \<Rightarrow> (Inl e, \<lparr>htrace = tr, hn_json = old\<rparr>)
      | (Return r, tr) \<Rightarrow> (Inr r, \<lparr>htrace = tr, hn_json = old\<rparr>)
      | (Continue False, tr) \<Rightarrow> (Inr [], \<lparr>htrace = tr, hn_json = old\<rparr>)
      | (Continue True, tr) \<Rightarrow>
          (case try_body w output_file \<lparr>htrace = tr, hn_json = old\<rparr> of
             (Inr r, s) \<Rightarrow>
               (Inr r, s\<lparr>htrace := htrace s @ [DriverQuit, Log INFO DriverClosed]\<rparr>)
           | (Inl e, s) \<Rightarrow>
               (Inr [], s\<lparr>htrace := htrace s @
                  [Log ERROR GeneralError, DriverQuit, Log INFO DriverClosed]\<rparr>)))"

section \<open>Observations and scenarios\<close>

text \<open>How often a trace calls \<^verbatim>\<open>driver.quit()\<close>.\<close>

definition quits :: "event list \<Rightarrow> nat" where
  "quits tr = length (filter (\<lambda>e. e = DriverQuit) tr)"

text \<open>
  Some attempt to start the browser goes through, every earlier one having raised a
  \<^verbatim>\<open>WebDriverException\<close>: line 55 has set \<^verbatim>\<open>driver\<close>.
\<close>

definition session_acquired :: "hn_world \<Rightarrow> bool" where
  "session_acquired w =
     list_ex (\<lambda>i. start_webdriver w i = None \<and>
        list_all (\<lambda>j. case start_webdriver w j of None \<Rightarrow> False
                        | Some e \<Rightarrow> is_webdriver_exception e) [0..<i])
       [0..<MAX_RETRIES]"

text \<open>Some call of \<^verbatim>\<open>driver.get\<close> goes through, every earlier one having raised a Selenium exception.\<close>

definition navigation_succeeds :: "hn_world \<Rightarrow> bool" where
  "navigation_succeeds w =
     list_ex (\<lambda>i. driver_get w i = None \<and>
        list_all (\<lambda>j. case driver_get w j of None \<Rightarrow> False
                        | Some e \<Rightarrow> is_webdriver_exception e) [0..<i])
       [0..<MAX_RETRIES]"

text \<open>Every one of the \<open>MAX_RETRIES\<close> calls of \<^verbatim>\<open>driver.get\<close> raises a Selenium exception.\<close>

definition navigation_exhausted :: "hn_world \<Rightarrow> bool" where
  "navigation_exhausted w =
     list_all (\<lambda>j. case driver_get w j of None \<Rightarrow> False | Some e \<Rightarrow> is_webdriver_exception e)
       [0..<MAX_RETRIES]"

text \<open>
  Some call of \<^verbatim>\<open>find_elements\<close> yields the non-empty list \<open>rows\<close>, every earlier one
  having yielded no row or raised \<^verbatim>\<open>NoSuchElementException\<close>.
\<close>

definition rows_located :: "hn_world \<Rightarrow> row_elem list \<Rightarrow> bool" where
  "rows_located w rows =
     (rows \<noteq> [] \<and>
      list_ex (\<lambda>i. find_elements w i = Inr rows \<and>
        list_all (\<lambda>j. find_elements w j = Inr [] \<or>
                       find_elements w j = Inl NoSuchElementException) [0..<i])
       [0..<MAX_RETRIES])"

text \<open>A world in which every call goes through at once and the page shows \<open>rows\<close>.\<close>

definition world_ok :: "row_elem list \<Rightarrow> hn_world" where
  "world_ok rows =
     \<lparr>start_webdriver = (\<lambda>_. None), driver_get = (\<lambda>_. None),
      find_elements = (\<lambda>_. Inr rows), write_file = WriteOk\<rparr>"

text \<open>A world in which the browser starts and every navigation times out.\<close>

definition world_nav_down :: hn_world where
  "world_nav_down =
     \<lparr>start_webdriver = (\<lambda>_. None), driver_get = (\<lambda>_. Some TimeoutException),
      find_elements = (\<lambda>_. Inr []), write_file = WriteOk\<rparr>"

definition row_plain :: row_elem where
  "row_plain = \<lparr>title_anchor = Inr (''Show HN'', Some ''https://example.org/''),
                 following_sibling = Inr (Inr 42)\<rparr>"






text \<open>
  \<open>each_followed P Q tr\<close>: in the trace \<open>tr\<close>, every event that satisfies \<open>P\<close> is
  followed at once by an event that satisfies \<open>Q\<close>.
\<close>

fun each_followed :: "(event \<Rightarrow> bool) \<Rightarrow> (event \<Rightarrow> bool) \<Rightarrow> event list \<Rightarrow> bool" where
  "each_followed P Q [] = True"
| "each_followed P Q [e] = (\<not> P e)"
| "each_followed P Q (e # e' # es) = ((P e \<longrightarrow> Q e') \<and> each_followed P Q (e' # es))"

text \<open>
  The log records of \<^verbatim>\<open>scrape_books\<close> that report a failed attempt: lines 71, 100
  and 106.
\<close>

definition books_failed_attempt :: "event \<Rightarrow> bool" where
  "books_failed_attempt e =
     (case e of
        Log l m \<Rightarrow>
          (case m of
             CategoryAttemptFailed n \<Rightarrow> True
           | PageStatus c n \<Rightarrow> True
           | PageRequestError n \<Rightarrow> True
           | _ \<Rightarrow> False)
      | _ \<Rightarrow> False)"

text \<open>
  What any stretch of \<^verbatim>\<open>scrape_books\<close> before the final write does to the state: it
  appends records, each with a category and a price below the limit, counts them, leaves
  the file alone, and appends events in which a delay follows each failed attempt.
\<close>

definition proceeds :: "real \<Rightarrow> nat \<Rightarrow> bstate \<Rightarrow> bstate \<Rightarrow> bool" where
  "proceeds plim d s s' =
     (\<exists>xs t. all_books_data s' = all_books_data s @ xs \<and>
        (\<forall>b \<in> set xs. Categoria b \<noteq> None \<and> Precio b < plim) \<and>
        books_scraped s' = books_scraped s + length xs \<and>
        books_json s' = books_json s \<and>
        trace s' = trace s @ t \<and>
        each_followed books_failed_attempt (\<lambda>e. e = Sleep d) t)"



text \<open>
  A fetch of a catalogue page that counts as a failed attempt: a
  \<^verbatim>\<open>RequestException\<close> or a status other than 200.
\<close>

definition page_fetch_fails :: "py_exc + response \<Rightarrow> bool" where
  "page_fetch_fails x =
     (case x of Inl e \<Rightarrow> is_request_exception e | Inr r \<Rightarrow> status_code r \<noteq> 200)"

text \<open>The first \<open>max_retries\<close> requests of the run, all for page 1, fail.\<close>

definition first_page_unreachable :: "web \<Rightarrow> nat \<Rightarrow> bool" where
  "first_page_unreachable get max_retries =
     list_all (\<lambda>k. page_fetch_fails (get k (page_url 1))) [0..<max_retries]"

text \<open>Two catalogue entries below a limit of 20, and three small networks.\<close>

definition pod_cheap :: book_elem where
  "pod_cheap = \<lparr>title_attr = Inr ''Emma'', price_float = Inr 12,
                 img_src = Inr ''emma.jpg'', href_attr = Inr ''emma/index.html''\<rparr>"

definition pod_dune :: book_elem where
  "pod_dune = \<lparr>title_attr = Inr ''Dune'', price_float = Inr 15,
                img_src = Inr ''dune.jpg'', href_attr = Inr ''dune/index.html''\<rparr>"

text \<open>Every request raises \<^verbatim>\<open>ConnectionError\<close>.\<close>

definition web_down :: web where
  "web_down = (\<lambda>n u. Inl ConnectionError)"

text \<open>
  Page 1 lists both entries; the page of the first has no breadcrumb, the page of the
  second names its category; every other URL answers 404.
\<close>

definition web_mixed :: web where
  "web_mixed = (\<lambda>n u.
     if u = page_url 1
     then Inr \<lparr>status_code = 200,
               content = \<lparr>product_pods = [pod_cheap, pod_dune],
                          breadcrumb_category = Inl AttributeError\<rparr>\<rparr>
     else if u = base_url @ ''dune/index.html''
     then Inr \<lparr>status_code = 200,
               content = \<lparr>product_pods = [], breadcrumb_category = Inr ''Science Fiction''\<rparr>\<rparr>
     else Inr \<lparr>status_code = 404,
               content = \<lparr>product_pods = [], breadcrumb_category = Inl AttributeError\<rparr>\<rparr>)"







text \<open>
  Page 1 is served with no entry, page 2 with one entry whose category resolves.
\<close>

definition web_gap :: web where
  "web_gap = (\<lambda>n u.
     if u = page_url 1
     then Inr \<lparr>status_code = 200,
               content = \<lparr>product_pods = [], breadcrumb_category = Inl AttributeError\<rparr>\<rparr>
     else if u = page_url 2
     then Inr \<lparr>status_code = 200,
               content = \<lparr>product_pods = [pod_dune], breadcrumb_category = Inl AttributeError\<rparr>\<rparr>
     else if u = base_url @ ''dune/index.html''
     then Inr \<lparr>status_code = 200,
               content = \<lparr>product_pods = [], breadcrumb_category = Inr ''Science Fiction''\<rparr>\<rparr>
     else Inr \<lparr>status_code = 404,
               content = \<lparr>product_pods = [], breadcrumb_category = Inl AttributeError\<rparr>\<rparr>)"

text \<open>Every page is served with no entry.\<close>

definition web_blank :: web where
  "web_blank = (\<lambda>n u.
     Inr \<lparr>status_code = 200,
          content = \<lparr>product_pods = [], breadcrumb_category = Inl AttributeError\<rparr>\<rparr>)"

text \<open>
  The log records of \<^verbatim>\<open>scrape_hacker_news\<close> that report a failed attempt (lines 59,
  88, 114 and 119); among them, those of the attempt numbered \<open>MAX_RETRIES\<close> in the
  three loops that guard their delay by \<^verbatim>\<open>attempt < MAX_RETRIES - 1\<close>; and the error
  records with which these loops give up.
\<close>

definition hn_failed_attempt :: "event \<Rightarrow> bool" where
  "hn_failed_attempt e =
     (case e of
        Log l m \<Rightarrow>
          (case m of
             DriverStartFailed n \<Rightarrow> True
           | NavigationFailed n \<Rightarrow> True
           | RowsMissing n \<Rightarrow> True
           | RowsEmpty \<Rightarrow> True
           | _ \<Rightarrow> False)
      | _ \<Rightarrow> False)"

definition hn_last_guarded :: "event \<Rightarrow> bool" where
  "hn_last_guarded e =
     (case e of
        Log l m \<Rightarrow>
          (case m of
             DriverStartFailed n \<Rightarrow> n = MAX_RETRIES
           | NavigationFailed n \<Rightarrow> n = MAX_RETRIES
           | RowsMissing n \<Rightarrow> n = MAX_RETRIES
           | _ \<Rightarrow> False)
      | _ \<Rightarrow> False)"

definition gives_up :: "event \<Rightarrow> bool" where
  "gives_up e =
     (e = Log ERROR DriverStartGivenUp \<or> e = Log ERROR NavigationGivenUp \<or>
      e = Log ERROR RowsGivenUp)"

definition hn_paced :: "event list \<Rightarrow> bool" where
  "hn_paced tr =
     (each_followed (\<lambda>e. hn_failed_attempt e \<and> \<not> hn_last_guarded e)
        (\<lambda>e. e = Sleep RETRY_DELAY) tr \<and>
      each_followed hn_last_guarded gives_up tr)"

text \<open>A world in which the browser never starts.\<close>

definition world_no_driver :: hn_world where
  "world_no_driver =
     \<lparr>start_webdriver = (\<lambda>_. Some WebDriverException), driver_get = (\<lambda>_. None),
      find_elements = (\<lambda>_. Inr []), write_file = WriteOk\<rparr>"








text \<open>The URLs of the catalogue pages a trace requests, in order.\<close>

definition page_gets :: "event list \<Rightarrow> string list" where
  "page_gets tr = List.map_filter (\<lambda>e. case e of PageGet u \<Rightarrow> Some u | _ \<Rightarrow> None) tr"










section \<open>Properties of the listing pipeline\<close>

subsection \<open>The three retry loops and the calls of quit\<close>

lemma range3: "[0..<MAX_RETRIES] = [0, 1, 2]"
  by (simp add: MAX_RETRIES_def upt_rec)

lemma upt3: "[0..<3] = [0, 1, 2::nat]"
  by (simp add: upt_rec)

lemma upt1: "[0..<1] = [0::nat]"
  by simp

lemma upt2: "[0..<2] = [0, 1::nat]"
  by (simp add: upt_rec)

lemma quits_append [simp]: "quits (xs @ ys) = quits xs + quits ys"
  by (simp add: quits_def)

lemma quits_simps [simp]:
  "quits [] = 0" "quits (DriverQuit # tr) = Suc (quits tr)"
  "quits (Log l m # tr) = quits tr" "quits (Sleep d # tr) = quits tr"
  "quits (DriverStart # tr) = quits tr" "quits (DriverGet u # tr) = quits tr"
  "quits (FindRows # tr) = quits tr" "quits (OpenWrite f # tr) = quits tr"
  by (simp_all add: quits_def)

lemma start_attempts_quits:
  "quits (snd (start_attempts w as tr)) = quits tr"
  by (induction as arbitrary: tr) (auto simp: Let_def row_handler_def split: option.splits)

lemma start_attempts_acquired:
  assumes "session_acquired w"
  shows "fst (start_attempts w [0..<MAX_RETRIES] tr) = Continue True"
  using assms unfolding session_acquired_def range3
  by (auto simp: Let_def MAX_RETRIES_def upt1 upt2 split: option.splits)

lemma navigate_attempts_quits:
  "quits (snd (navigate_attempts w as tr)) =
     (case fst (navigate_attempts w as tr) of Return r \<Rightarrow> Suc (quits tr) | _ \<Rightarrow> quits tr)"
  by (induction as arbitrary: tr) (auto simp: Let_def split: option.splits flow.splits)

lemma find_attempts_quits:
  "quits (snd (find_attempts w as tr)) =
     (case fst (find_attempts w as tr) of Return r \<Rightarrow> Suc (quits tr) | _ \<Rightarrow> quits tr)"
  by (induction as arbitrary: tr) (auto simp: Let_def split: sum.splits flow.splits)

lemma rows_loop_quits:
  "quits (snd (rows_loop i rows items tr)) = quits tr"
  by (induction rows arbitrary: i items tr) (auto simp: row_handler_def split: sum.splits prod.splits)


lemma navigate_attempts_succeeds:
  assumes "navigation_succeeds w"
  shows "fst (navigate_attempts w [0..<MAX_RETRIES] tr) = Continue ()"
  using assms unfolding navigation_succeeds_def range3
  by (auto simp: Let_def MAX_RETRIES_def upt1 upt2 split: option.splits)

lemma navigate_attempts_exhausted:
  assumes "navigation_exhausted w"
  shows "fst (navigate_attempts w [0..<MAX_RETRIES] tr) = Return []"
  using assms unfolding navigation_exhausted_def range3
  by (auto simp: Let_def MAX_RETRIES_def split: option.splits)

lemma find_attempts_located:
  assumes "rows_located w rows"
  shows "fst (find_attempts w [0..<MAX_RETRIES] tr) = Continue rows"
  using assms unfolding rows_located_def range3
  by (auto simp: Let_def MAX_RETRIES_def upt1 upt2 split: sum.splits)

lemma save_headlines_quits:
  "quits (htrace (snd (save_headlines wr f items s))) = quits (htrace s)"
  by (simp add: save_headlines_def split: write_outcome.splits)

lemma navigate_attempts_quitsD:
  "navigate_attempts w as tr = (fl, tr') \<Longrightarrow>
     quits tr' = (case fl of Return r \<Rightarrow> Suc (quits tr) | _ \<Rightarrow> quits tr)"
  using navigate_attempts_quits [of w as tr] by simp

lemma find_attempts_quitsD:
  "find_attempts w as tr = (fl, tr') \<Longrightarrow>
     quits tr' = (case fl of Return r \<Rightarrow> Suc (quits tr) | _ \<Rightarrow> quits tr)"
  using find_attempts_quits [of w as tr] by simp

lemma rows_loop_quitsD:
  "rows_loop i rows items tr = (items', tr') \<Longrightarrow> quits tr' = quits tr"
  using rows_loop_quits [of i rows items tr] by simp

lemma start_attempts_quitsD:
  "start_attempts w as tr = (fl, tr') \<Longrightarrow> quits tr' = quits tr"
  using start_attempts_quits [of w as tr] by simp

lemma try_body_quits:
  "quits (htrace (snd (try_body w f s))) = quits (htrace s) \<or>
   quits (htrace (snd (try_body w f s))) = Suc (quits (htrace s))"
  by (auto simp: try_body_def save_headlines_def
      split: prod.splits flow.splits write_outcome.splits
      dest!: navigate_attempts_quitsD find_attempts_quitsD rows_loop_quitsD)

lemma try_body_quits_success:
  assumes "navigation_succeeds w" "rows_located w rows"
  shows "quits (htrace (snd (try_body w f s))) = quits (htrace s)"
proof -
  obtain tr1 where nav: "navigate_attempts w [0..<MAX_RETRIES] (htrace s) = (Continue (), tr1)"
    using navigate_attempts_succeeds [OF assms(1), of "htrace s"]
    by (cases "navigate_attempts w [0..<MAX_RETRIES] (htrace s)") simp
  obtain tr2 where fnd: "find_attempts w [0..<MAX_RETRIES] tr1 = (Continue rows, tr2)"
    using find_attempts_located [OF assms(2), of tr1]
    by (cases "find_attempts w [0..<MAX_RETRIES] tr1") simp
  obtain items tr3 where rl: "rows_loop 0 rows [] tr2 = (items, tr3)"
    by (cases "rows_loop 0 rows [] tr2")
  have ne: "rows \<noteq> []"
    using assms(2) by (simp add: rows_located_def)
  show ?thesis
    using navigate_attempts_quitsD [OF nav] find_attempts_quitsD [OF fnd] rows_loop_quitsD [OF rl] ne
    by (simp add: try_body_def nav fnd rl save_headlines_def split: write_outcome.splits)
qed

lemma try_body_quits_exhausted:
  assumes "navigation_exhausted w"
  shows "quits (htrace (snd (try_body w f s))) = Suc (quits (htrace s))"
proof -
  obtain tr1 where nav: "navigate_attempts w [0..<MAX_RETRIES] (htrace s) = (Return [], tr1)"
    using navigate_attempts_exhausted [OF assms, of "htrace s"]
    by (cases "navigate_attempts w [0..<MAX_RETRIES] (htrace s)") simp
  show ?thesis
    using navigate_attempts_quitsD [OF nav] by (simp add: try_body_def nav)
qed

text \<open>
  Claim C4, as the code has it. In every run in which the browser session was acquired,
  \<^verbatim>\<open>driver.quit()\<close> is called at least once and at most twice before the function
  returns: exactly once in a run in which navigation and row location succeed (only the
  \<^verbatim>\<open>finally\<close> clause of line 200 calls it), and exactly twice in a run in which
  navigation exhausts its retries (line 98 calls it, and the \<^verbatim>\<open>finally\<close> clause
  calls it again on the way out of \<^verbatim>\<open>return []\<close>).
\<close>

theorem session_release:
  assumes "session_acquired w"
  shows "1 \<le> quits (htrace (snd (scrape_hacker_news w f old))) \<and>
         quits (htrace (snd (scrape_hacker_news w f old))) \<le> 2 \<and>
         (navigation_succeeds w \<and> rows_located w rows \<longrightarrow>
            quits (htrace (snd (scrape_hacker_news w f old))) = 1) \<and>
         (navigation_exhausted w \<longrightarrow>
            quits (htrace (snd (scrape_hacker_news w f old))) = 2)"
proof -
  obtain tr where st: "start_attempts w [0..<MAX_RETRIES] [Log INFO HnStarting] = (Continue True, tr)"
    using start_attempts_acquired [OF assms, of "[Log INFO HnStarting]"]
    by (cases "start_attempts w [0..<MAX_RETRIES] [Log INFO HnStarting]") simp
  have q0: "quits tr = 0"
    using start_attempts_quitsD [OF st] by simp
  let ?s0 = "\<lparr>htrace = tr, hn_json = old\<rparr>"
  have fin: "quits (htrace (snd (scrape_hacker_news w f old))) = Suc (quits (htrace (snd (try_body w f ?s0))))"
    using st by (simp add: scrape_hacker_news_def split: prod.splits sum.splits)
  have a: "quits (htrace (snd (try_body w f ?s0))) = 0 \<or> quits (htrace (snd (try_body w f ?s0))) = 1"
    using try_body_quits [of w f ?s0] q0 by simp
  have b: "quits (htrace (snd (try_body w f ?s0))) = 0" if "navigation_succeeds w" "rows_located w rows"
    using try_body_quits_success [OF that, of f ?s0] q0 by simp
  have c: "quits (htrace (snd (try_body w f ?s0))) = 1" if "navigation_exhausted w"
    using try_body_quits_exhausted [OF that, of f ?s0] q0 by simp
  show ?thesis
    using a b c unfolding fin by auto
qed

theorem session_release_witness:
  "session_acquired (world_ok [row_plain]) \<and>
   navigation_succeeds (world_ok [row_plain]) \<and> rows_located (world_ok [row_plain]) [row_plain] \<and>
   quits (htrace (snd (scrape_hacker_news (world_ok [row_plain]) ''hacker_news.json'' Absent))) = 1 \<and>
   session_acquired world_nav_down \<and> navigation_exhausted world_nav_down \<and>
   quits (htrace (snd (scrape_hacker_news world_nav_down ''hacker_news.json'' Absent))) = 2"
proof -
  have a: "session_acquired (world_ok [row_plain])"
    by (simp add: session_acquired_def world_ok_def range3)
  have b: "navigation_succeeds (world_ok [row_plain])"
    by (simp add: navigation_succeeds_def world_ok_def range3)
  have c: "rows_located (world_ok [row_plain]) [row_plain]"
    by (simp add: rows_located_def world_ok_def range3)
  have d: "session_acquired world_nav_down"
    by (simp add: session_acquired_def world_nav_down_def range3)
  have e: "navigation_exhausted world_nav_down"
    by (simp add: navigation_exhausted_def world_nav_down_def range3 is_webdriver_exception_def)
  show ?thesis
    using a b c d e
      session_release [OF a, where rows = "[row_plain]" and f = "''hacker_news.json''" and old = Absent]
      session_release [OF d, where rows = "[row_plain]" and f = "''hacker_news.json''" and old = Absent]
    by simp
qed

text \<open>
  Claim C4 as stated fails: with a session acquired and all three navigations timing
  out, \<^verbatim>\<open>driver.quit()\<close> is called twice, not exactly once.
\<close>

theorem quit_twice_counterexample:
  "session_acquired world_nav_down \<and>
   quits (htrace (snd (scrape_hacker_news world_nav_down ''hacker_news.json'' Absent))) = 2"
  by (simp add: session_acquired_def world_nav_down_def upt3 scrape_hacker_news_def try_body_def
      is_webdriver_exception_def MAX_RETRIES_def Let_def)

subsection \<open>Row extraction\<close>








subsection \<open>The final write\<close>

lemma scenario_write_file [simp]:
  "session_acquired (w\<lparr>write_file := wr\<rparr>) = session_acquired w"
  "navigation_succeeds (w\<lparr>write_file := wr\<rparr>) = navigation_succeeds w"
  "rows_located (w\<lparr>write_file := wr\<rparr>) rows = rows_located w rows"
  by (simp_all add: session_acquired_def navigation_succeeds_def rows_located_def)






section \<open>Properties of the catalogue pipeline\<close>

subsection \<open>What every stretch of a run preserves\<close>

lemma each_followed_append:
  "each_followed P Q xs \<Longrightarrow> each_followed P Q ys \<Longrightarrow> each_followed P Q (xs @ ys)"
proof (induction P Q xs rule: each_followed.induct)
  case (1 P Q)
  then show ?case by simp
next
  case (2 P Q e)
  then show ?case by (cases ys) simp_all
next
  case (3 P Q e e' es)
  then show ?case by simp
qed

lemma proceeds_refl: "proceeds plim d s s"
  by (simp add: proceeds_def)

lemma proceeds_trans:
  assumes "proceeds plim d s s'" "proceeds plim d s' s''"
  shows "proceeds plim d s s''"
proof -
  obtain xs t where 1: "all_books_data s' = all_books_data s @ xs"
      "\<forall>b \<in> set xs. Categoria b \<noteq> None \<and> Precio b < plim"
      "books_scraped s' = books_scraped s + length xs" "books_json s' = books_json s"
      "trace s' = trace s @ t" "each_followed books_failed_attempt (\<lambda>e. e = Sleep d) t"
    using assms(1) unfolding proceeds_def by blast
  obtain ys u where 2: "all_books_data s'' = all_books_data s' @ ys"
      "\<forall>b \<in> set ys. Categoria b \<noteq> None \<and> Precio b < plim"
      "books_scraped s'' = books_scraped s' + length ys" "books_json s'' = books_json s'"
      "trace s'' = trace s' @ u" "each_followed books_failed_attempt (\<lambda>e. e = Sleep d) u"
    using assms(2) unfolding proceeds_def by blast
  have "all_books_data s'' = all_books_data s @ (xs @ ys)"
    using 1(1) 2(1) by simp
  moreover have "\<forall>b \<in> set (xs @ ys). Categoria b \<noteq> None \<and> Precio b < plim"
    using 1(2) 2(2) by auto
  moreover have "books_scraped s'' = books_scraped s + length (xs @ ys)"
    using 1(3) 2(3) by simp
  moreover have "books_json s'' = books_json s"
    using 1(4) 2(4) by simp
  moreover have "trace s'' = trace s @ (t @ u)"
    using 1(5) 2(5) by simp
  moreover have "each_followed books_failed_attempt (\<lambda>e. e = Sleep d) (t @ u)"
    using 1(6) 2(6) by (rule each_followed_append)
  ultimately show ?thesis
    unfolding proceeds_def by blast
qed

lemma proceeds_emit:
  assumes "each_followed books_failed_attempt (\<lambda>e. e = Sleep d) es"
  shows "proceeds plim d s (emit es (s\<lparr>requests_made := k\<rparr>))"
    and "proceeds plim d s (emit es s)"
  using assms unfolding proceeds_def emit_def by auto

lemma proceeds_collect:
  assumes "price < plim"
  shows "proceeds plim d s
     (s\<lparr>all_books_data := all_books_data s @
          [\<lparr>Titulo = t, Precio = price, Categoria = Some c, URL_de_la_imagen = u\<rparr>],
        books_scraped := books_scraped s + 1\<rparr>)"
  using assms unfolding proceeds_def by auto

lemma category_attempts_proceeds:
  "proceeds plim d s (snd (category_attempts get d book_url as s))"
proof (induction as arbitrary: s)
  case Nil
  show ?case
    by (simp add: proceeds_emit books_failed_attempt_def)
next
  case (Cons a as)
  let ?s1 = "emit [BookGet book_url] (s\<lparr>requests_made := Suc (requests_made s)\<rparr>)"
  let ?s2 = "emit [Log WARNING (CategoryAttemptFailed (a + 1)), Sleep d] ?s1"
  have 1: "proceeds plim d s ?s1"
    by (rule proceeds_emit) (simp add: books_failed_attempt_def)
  have 2: "proceeds plim d ?s1 ?s2"
    by (rule proceeds_emit) (simp add: books_failed_attempt_def)
  have 3: "proceeds plim d s (snd (category_attempts get d book_url as ?s2))"
    using proceeds_trans [OF proceeds_trans [OF 1 2] Cons.IH [of ?s2]] .
  show ?case
    using 1 3 by (simp add: Let_def split: sum.splits)
qed

lemma books_loop_proceeds:
  "proceeds plim d s (snd (books_loop get N plim R d books s))"
proof (induction books arbitrary: s)
  case Nil
  show ?case by (simp add: proceeds_refl)
next
  case (Cons book books)
  show ?case
  proof (cases "title_attr book")
    case (Inl e)
    then show ?thesis by (simp add: proceeds_refl)
  next
    case title: (Inr t)
    show ?thesis
    proof (cases "price_float book")
      case (Inl e)
      then show ?thesis using title by (simp add: proceeds_refl)
    next
      case price: (Inr p)
      show ?thesis
      proof (cases "p < plim")
        case False
        then show ?thesis using title price Cons.IH by simp
      next
        case cheap: True
        show ?thesis
        proof (cases "img_src book")
          case (Inl e)
          then show ?thesis using title price cheap by (simp add: proceeds_refl)
        next
          case img: (Inr src)
          show ?thesis
          proof (cases "href_attr book")
            case (Inl e)
            then show ?thesis using title price cheap img by (simp add: proceeds_refl)
          next
            case href: (Inr h)
            obtain r s1 where cat: "category_attempts get d (base_url @ h) [0..<R] s = (r, s1)"
              by (cases "category_attempts get d (base_url @ h) [0..<R] s")
            have p1: "proceeds plim d s s1"
              using category_attempts_proceeds [of plim d s get "base_url @ h" "[0..<R]"] cat by simp
            show ?thesis
            proof (cases r)
              case (Inl e)
              then show ?thesis using title price cheap img href cat p1 by simp
            next
              case (Inr co)
              show ?thesis
              proof (cases co)
                case None
                then show ?thesis
                  using title price cheap img href cat Inr
                    proceeds_trans [OF p1 Cons.IH [of s1]] by simp
              next
                case (Some c)
                let ?s2 = "s1\<lparr>all_books_data := all_books_data s1 @
                    [\<lparr>Titulo = t, Precio = p, Categoria = Some c,
                      URL_de_la_imagen = base_url @ src\<rparr>],
                  books_scraped := books_scraped s1 + 1\<rparr>"
                have p2: "proceeds plim d s ?s2"
                  using proceeds_trans [OF p1 proceeds_collect [OF cheap]] .
                have p3: "proceeds plim d s (snd (books_loop get N plim R d books ?s2))"
                  using proceeds_trans [OF p2 Cons.IH [of ?s2]] .
                show ?thesis
                  using title price cheap img href cat Inr Some p2 p3
                  by (simp add: Let_def)
              qed
            qed
          qed
        qed
      qed
    qed
  qed
qed


lemma page_attempts_proceeds:
  "proceeds plim d s (snd (page_attempts get N plim R d u as s))"
proof (induction as arbitrary: s)
  case Nil
  show ?case
    by (simp add: proceeds_emit books_failed_attempt_def)
next
  case (Cons a as)
  let ?s1 = "emit [PageGet u] (s\<lparr>requests_made := Suc (requests_made s)\<rparr>)"
  have 1: "proceeds plim d s ?s1"
    by (rule proceeds_emit) (simp add: books_failed_attempt_def)
  have retry: "proceeds plim d s
      (snd (page_attempts get N plim R d u as (emit [Log l m, Sleep d] s2)))"
    if "proceeds plim d s s2" for s2 l m
  proof -
    have "proceeds plim d s2 (emit [Log l m, Sleep d] s2)"
      by (rule proceeds_emit) (simp add: books_failed_attempt_def)
    from proceeds_trans [OF proceeds_trans [OF that this] Cons.IH]
    show ?thesis .
  qed
  show ?case
  proof (cases "get (requests_made s) u")
    case (Inl e)
    then show ?thesis
      using 1 retry [OF 1] by (simp add: Let_def)
  next
    case (Inr response)
    show ?thesis
    proof (cases "status_code response = 200")
      case False
      then show ?thesis
        using Inr retry [OF 1] by (simp add: Let_def)
    next
      case ok: True
      show ?thesis
      proof (cases "product_pods (content response) = []")
        case True
        have "proceeds plim d ?s1 (emit [Log INFO NoMoreBooks] ?s1)"
          by (rule proceeds_emit) (simp add: books_failed_attempt_def)
        from proceeds_trans [OF 1 this] show ?thesis
          using Inr ok True by (simp add: Let_def)
      next
        case False
        obtain r s2 where bl: "books_loop get N plim R d (product_pods (content response)) ?s1 = (r, s2)"
          by (cases "books_loop get N plim R d (product_pods (content response)) ?s1")
        have 2: "proceeds plim d s s2"
          using proceeds_trans [OF 1 books_loop_proceeds [of plim d ?s1 get N R "product_pods (content response)"]] bl
          by simp
        show ?thesis
          using Inr ok False bl 2 retry [OF 2]
          by (cases r) (simp_all add: Let_def)
      qed
    qed
  qed
qed

lemma pagination_proceeds:
  "pagination fuel get N plim R d page_num s = Some (r, s') \<Longrightarrow> proceeds plim d s s'"
proof (induction fuel arbitrary: page_num s)
  case 0
  then show ?case
    by (simp add: proceeds_refl split: if_splits)
next
  case (Suc fuel)
  show ?case
  proof (cases "int (books_scraped s) < N")
    case False
    then show ?thesis using Suc.prems by (simp add: proceeds_refl)
  next
    case True
    obtain x s1 where pa: "page_attempts get N plim R d (page_url page_num) [0..<R] s = (x, s1)"
      by (cases "page_attempts get N plim R d (page_url page_num) [0..<R] s")
    have 1: "proceeds plim d s s1"
      using page_attempts_proceeds [of plim d s get N R "page_url page_num" "[0..<R]"] pa by simp
    show ?thesis
    proof (cases x)
      case (Inl e)
      then show ?thesis using Suc.prems True pa 1 by simp
    next
      case (Inr ex)
      show ?thesis
      proof (cases ex)
        case PageGivenUpExit
        then show ?thesis using Suc.prems True pa Inr 1 by simp
      next
        case PageBreak
        then have "pagination fuel get N plim R d (page_num + 1) s1 = Some (r, s')"
          using Suc.prems True pa Inr by simp
        from proceeds_trans [OF 1 Suc.IH [OF this]] show ?thesis .
      qed
    qed
  qed
qed

lemma scrape_books_invariant:
  assumes "scrape_books fuel get wr old N plim R d = Some (r, s)"
  shows "(\<forall>b \<in> set (all_books_data s). Categoria b \<noteq> None \<and> Precio b < plim) \<and>
         books_scraped s = length (all_books_data s)"
    and "each_followed books_failed_attempt (\<lambda>e. e = Sleep d) (trace s)"
proof -
  obtain r0 s0 where pg: "pagination fuel get N plim R d 1 (initial_bstate old) = Some (r0, s0)"
    using assms by (auto simp: scrape_books_def split: option.splits)
  have p: "proceeds plim d (initial_bstate old) s0"
    by (rule pagination_proceeds [OF pg])
  then obtain t where s0: "\<forall>b \<in> set (all_books_data s0). Categoria b \<noteq> None \<and> Precio b < plim"
      "books_scraped s0 = length (all_books_data s0)" "trace s0 = t"
      "each_followed books_failed_attempt (\<lambda>e. e = Sleep d) t"
    unfolding proceeds_def initial_bstate_def by auto
  have cases: "s = s0 \<or> s = save_books wr s0"
    using assms pg by (auto simp: scrape_books_def split: sum.splits)
  have sv: "all_books_data (save_books wr s0) = all_books_data s0"
      "books_scraped (save_books wr s0) = books_scraped s0"
    by (simp_all add: save_books_def emit_def split: write_outcome.splits)
  show "(\<forall>b \<in> set (all_books_data s). Categoria b \<noteq> None \<and> Precio b < plim) \<and>
         books_scraped s = length (all_books_data s)"
    using cases s0(1,2) sv by auto
  have "each_followed books_failed_attempt (\<lambda>e. e = Sleep d) (trace (save_books wr s0))"
  proof (cases wr)
    case WriteOk
    have "each_followed books_failed_attempt (\<lambda>e. e = Sleep d)
        (t @ [OpenWrite ''books.json'', Log INFO (BooksSaved (books_scraped s0))])"
      by (rule each_followed_append [OF s0(4)]) (simp add: books_failed_attempt_def)
    then show ?thesis using WriteOk s0(3) by (simp add: save_books_def emit_def)
  next
    case (WriteIOError left)
    have "each_followed books_failed_attempt (\<lambda>e. e = Sleep d)
        (t @ [OpenWrite ''books.json'', Log ERROR BooksWriteFailed])"
      by (rule each_followed_append [OF s0(4)]) (simp add: books_failed_attempt_def)
    then show ?thesis using WriteIOError s0(3) by (simp add: save_books_def emit_def)
  qed
  then show "each_followed books_failed_attempt (\<lambda>e. e = Sleep d) (trace s)"
    using cases s0(3,4) by auto
qed


subsection \<open>Exhausted retry loops\<close>


lemma page_attempts_unreachable:
  assumes "\<forall>k < length as. page_fetch_fails (get (requests_made s + k) u)"
  shows "\<exists>s1. page_attempts get N plim R d u as s = (Inr PageGivenUpExit, s1) \<and>
           all_books_data s1 = all_books_data s \<and> books_scraped s1 = books_scraped s \<and>
           books_json s1 = books_json s"
  using assms
proof (induction as arbitrary: s)
  case Nil
  show ?case by (simp add: emit_def)
next
  case (Cons a as)
  let ?s1 = "emit [PageGet u] (s\<lparr>requests_made := Suc (requests_made s)\<rparr>)"
  have here: "page_fetch_fails (get (requests_made s) u)"
    using Cons.prems [rule_format, of 0] by simp
  have later: "\<forall>k < length as. page_fetch_fails (get (requests_made (emit es ?s1) + k) u)" for es
  proof (intro allI impI)
    fix k assume "k < length as"
    then show "page_fetch_fails (get (requests_made (emit es ?s1) + k) u)"
      using Cons.prems [rule_format, of "Suc k"] by (simp add: emit_def)
  qed
  have "\<exists>es. page_attempts get N plim R d u (a # as) s =
      page_attempts get N plim R d u as (emit es ?s1)"
    using here by (auto simp: Let_def page_fetch_fails_def split: sum.splits)
  then obtain es where step: "page_attempts get N plim R d u (a # as) s =
      page_attempts get N plim R d u as (emit es ?s1)"
    by blast
  obtain s1 where "page_attempts get N plim R d u as (emit es ?s1) = (Inr PageGivenUpExit, s1)"
      "all_books_data s1 = all_books_data (emit es ?s1)"
      "books_scraped s1 = books_scraped (emit es ?s1)"
      "books_json s1 = books_json (emit es ?s1)"
    using Cons.IH [OF later] by blast
  then show ?case
    unfolding step by (simp add: emit_def)
qed

lemmas run_simps = scrape_books_def initial_bstate_def save_books_def emit_def Let_def upt3
  is_request_exception_def page_url_def base_url_def digit_char_def

lemma web_mixed_run:
  "scrape_books 1 web_mixed WriteOk Absent 1 20 3 1 = Some (Inr (),
     \<lparr>requests_made = 5,
      trace = [PageGet (page_url 1),
               BookGet (base_url @ ''emma/index.html''),
               Log WARNING (CategoryAttemptFailed 1), Sleep 1,
               BookGet (base_url @ ''emma/index.html''),
               Log WARNING (CategoryAttemptFailed 2), Sleep 1,
               BookGet (base_url @ ''emma/index.html''),
               Log WARNING (CategoryAttemptFailed 3), Sleep 1,
               Log ERROR (CategoryGivenUp (base_url @ ''emma/index.html'')),
               BookGet (base_url @ ''dune/index.html''),
               OpenWrite ''books.json'', Log INFO (BooksSaved 1)],
      all_books_data = [\<lparr>Titulo = ''Dune'', Precio = 15, Categoria = Some ''Science Fiction'',
                          URL_de_la_imagen = base_url @ ''dune.jpg''\<rparr>],
      books_scraped = 1,
      books_json = Document (JArray [book_dict
         \<lparr>Titulo = ''Dune'', Precio = 15, Categoria = Some ''Science Fiction'',
           URL_de_la_imagen = base_url @ ''dune.jpg''\<rparr>])\<rparr>)"
  by (simp add: run_simps web_mixed_def pod_cheap_def pod_dune_def)















text \<open>
  Claim C10, as the code has it. When the pagination loop has ended and the write goes
  through, \<^verbatim>\<open>books.json\<close> holds the JSON array of exactly the records the loop
  collected, whatever the file held before; when the write raises \<^verbatim>\<open>IOError\<close>, the
  run returns all the same and the file holds what the failed write left. In
  particular, when the target is positive and every attempt at the first page fails, the
  run returns with nothing collected and a successful write leaves the empty array.
\<close>

theorem books_json_overwritten:
  "(pagination fuel get N plim R d 1 (initial_bstate old) = Some (Inr (), sl) \<longrightarrow>
      (\<exists>s. scrape_books fuel get WriteOk old N plim R d = Some (Inr (), s) \<and>
         all_books_data s = all_books_data sl \<and>
         books_json s = Document (JArray (map book_dict (all_books_data sl)))) \<and>
      (\<exists>s. scrape_books fuel get (WriteIOError left) old N plim R d = Some (Inr (), s) \<and>
         all_books_data s = all_books_data sl \<and> books_json s = left)) \<and>
   (first_page_unreachable get' R \<and> 0 < N \<longrightarrow>
      (\<exists>s'. scrape_books (Suc fuel') get' WriteOk old N plim R d = Some (Inr (), s') \<and>
         all_books_data s' = [] \<and> books_json s' = Document (JArray [])))"
proof (intro conjI impI)
  assume "pagination fuel get N plim R d 1 (initial_bstate old) = Some (Inr (), sl)"
  then have "scrape_books fuel get WriteOk old N plim R d = Some (Inr (), save_books WriteOk sl)"
    by (simp add: scrape_books_def del: pagination.simps)
  then show "\<exists>s. scrape_books fuel get WriteOk old N plim R d = Some (Inr (), s) \<and>
         all_books_data s = all_books_data sl \<and>
         books_json s = Document (JArray (map book_dict (all_books_data sl)))"
    by (simp add: save_books_def emit_def)
next
  assume "pagination fuel get N plim R d 1 (initial_bstate old) = Some (Inr (), sl)"
  then have "scrape_books fuel get (WriteIOError left) old N plim R d =
      Some (Inr (), save_books (WriteIOError left) sl)"
    by (simp add: scrape_books_def del: pagination.simps)
  then show "\<exists>s. scrape_books fuel get (WriteIOError left) old N plim R d = Some (Inr (), s) \<and>
         all_books_data s = all_books_data sl \<and> books_json s = left"
    by (simp add: save_books_def emit_def)
next
  assume a: "first_page_unreachable get' R \<and> 0 < N"
  let ?s0 = "initial_bstate old"
  have "\<forall>k < length [0..<R]. page_fetch_fails (get' (requests_made ?s0 + k) (page_url 1))"
    using a by (simp add: first_page_unreachable_def list_all_iff initial_bstate_def)
  from page_attempts_unreachable
    [where as = "[0..<R]" and get = get' and s = ?s0 and u = "page_url 1"
       and N = N and plim = plim and R = R and d = d, OF this]
  obtain s1 where pa: "page_attempts get' N plim R d (page_url 1) [0..<R] ?s0 = (Inr PageGivenUpExit, s1)"
      and s1: "all_books_data s1 = all_books_data ?s0" "books_scraped s1 = books_scraped ?s0"
    by blast
  have "int (books_scraped ?s0) < N"
    using a by (simp add: initial_bstate_def)
  then have "pagination (Suc fuel') get' N plim R d 1 ?s0 = Some (Inr (), s1)"
    using pa by simp
  then have "scrape_books (Suc fuel') get' WriteOk old N plim R d = Some (Inr (), save_books WriteOk s1)"
    by (simp add: scrape_books_def)
  moreover have "all_books_data (save_books WriteOk s1) = []"
      "books_json (save_books WriteOk s1) = Document (JArray [])"
    using s1 by (simp_all add: save_books_def emit_def initial_bstate_def)
  ultimately show "\<exists>s'. scrape_books (Suc fuel') get' WriteOk old N plim R d = Some (Inr (), s') \<and>
         all_books_data s' = [] \<and> books_json s' = Document (JArray [])"
    by blast
qed

lemma web_mixed_pagination:
  "pagination 1 web_mixed 1 20 3 1 1 (initial_bstate (Document (JArray [JString ''stale'']))) =
     Some (Inr (),
     \<lparr>requests_made = 5,
      trace = [PageGet (page_url 1),
               BookGet (base_url @ ''emma/index.html''),
               Log WARNING (CategoryAttemptFailed 1), Sleep 1,
               BookGet (base_url @ ''emma/index.html''),
               Log WARNING (CategoryAttemptFailed 2), Sleep 1,
               BookGet (base_url @ ''emma/index.html''),
               Log WARNING (CategoryAttemptFailed 3), Sleep 1,
               Log ERROR (CategoryGivenUp (base_url @ ''emma/index.html'')),
               BookGet (base_url @ ''dune/index.html'')],
      all_books_data = [\<lparr>Titulo = ''Dune'', Precio = 15, Categoria = Some ''Science Fiction'',
                          URL_de_la_imagen = base_url @ ''dune.jpg''\<rparr>],
      books_scraped = 1,
      books_json = Document (JArray [JString ''stale''])\<rparr>)"
  by (simp add: run_simps web_mixed_def pod_cheap_def pod_dune_def)

theorem books_json_overwritten_witness:
  "first_page_unreachable web_down 3 \<and> (0::int) < 1 \<and>
   (\<exists>s. scrape_books 1 web_down WriteOk (Document (JArray [JString ''stale''])) 1 20 3 1 =
           Some (Inr (), s) \<and>
        all_books_data s = [] \<and> books_json s = Document (JArray [])) \<and>
   (\<exists>s0. pagination 1 web_mixed 1 20 3 1 1 (initial_bstate (Document (JArray [JString ''stale'']))) =
           Some (Inr (), s0) \<and>
        map Titulo (all_books_data s0) = [''Dune'']) \<and>
   (\<exists>s. scrape_books 1 web_mixed WriteOk (Document (JArray [JString ''stale''])) 1 20 3 1 =
           Some (Inr (), s) \<and>
        books_json s = Document (JArray [book_dict
          \<lparr>Titulo = ''Dune'', Precio = 15, Categoria = Some ''Science Fiction'',
            URL_de_la_imagen = base_url @ ''dune.jpg''\<rparr>]))"
proof -
  have un: "first_page_unreachable web_down 3"
    by (simp add: first_page_unreachable_def page_fetch_fails_def web_down_def
        is_request_exception_def upt3)
  have pos: "(0::int) < 1"
    by simp
  let ?s0 = "\<lparr>requests_made = 5,
      trace = [PageGet (page_url 1),
               BookGet (base_url @ ''emma/index.html''),
               Log WARNING (CategoryAttemptFailed 1), Sleep 1,
               BookGet (base_url @ ''emma/index.html''),
               Log WARNING (CategoryAttemptFailed 2), Sleep 1,
               BookGet (base_url @ ''emma/index.html''),
               Log WARNING (CategoryAttemptFailed 3), Sleep 1,
               Log ERROR (CategoryGivenUp (base_url @ ''emma/index.html'')),
               BookGet (base_url @ ''dune/index.html'')],
      all_books_data = [\<lparr>Titulo = ''Dune'', Precio = 15, Categoria = Some ''Science Fiction'',
                          URL_de_la_imagen = base_url @ ''dune.jpg''\<rparr>],
      books_scraped = 1,
      books_json = Document (JArray [JString ''stale''])\<rparr>"
  note inst = books_json_overwritten
    [where fuel = 1 and get = web_mixed and old = "Document (JArray [JString ''stale''])"
       and N = 1 and plim = 20 and R = 3 and d = 1 and sl = "?s0" and get' = web_down
       and fuel' = 0 and left = Garbage]
  have 1: "\<exists>s0. pagination 1 web_mixed 1 20 3 1 1
        (initial_bstate (Document (JArray [JString ''stale'']))) = Some (Inr (), s0) \<and>
        map Titulo (all_books_data s0) = [''Dune'']"
    using web_mixed_pagination by simp
  have 2: "\<exists>s. scrape_books 1 web_mixed WriteOk (Document (JArray [JString ''stale''])) 1 20 3 1 =
           Some (Inr (), s) \<and>
        books_json s = Document (JArray [book_dict
          \<lparr>Titulo = ''Dune'', Precio = 15, Categoria = Some ''Science Fiction'',
            URL_de_la_imagen = base_url @ ''dune.jpg''\<rparr>])"
    using inst web_mixed_pagination by auto
  have 3: "\<exists>s. scrape_books 1 web_down WriteOk (Document (JArray [JString ''stale''])) 1 20 3 1 =
           Some (Inr (), s) \<and> all_books_data s = [] \<and> books_json s = Document (JArray [])"
    using inst un by simp
  show ?thesis
    by (intro conjI) (fact un pos 1 2 3)+
qed

text \<open>
  Claim C10 as stated fails: a run that reaches the write and collects one record, but
  whose write raises \<^verbatim>\<open>IOError\<close>, returns with the stale content still in the file.
\<close>

theorem stale_file_counterexample:
  "scrape_books 1 web_mixed (WriteIOError (Document (JArray [JString ''stale''])))
     (Document (JArray [JString ''stale''])) 1 20 3 1 =
   Some (Inr (),
     \<lparr>requests_made = 5,
      trace = [PageGet (page_url 1),
               BookGet (base_url @ ''emma/index.html''),
               Log WARNING (CategoryAttemptFailed 1), Sleep 1,
               BookGet (base_url @ ''emma/index.html''),
               Log WARNING (CategoryAttemptFailed 2), Sleep 1,
               BookGet (base_url @ ''emma/index.html''),
               Log WARNING (CategoryAttemptFailed 3), Sleep 1,
               Log ERROR (CategoryGivenUp (base_url @ ''emma/index.html'')),
               BookGet (base_url @ ''dune/index.html''),
               OpenWrite ''books.json'', Log ERROR BooksWriteFailed],
      all_books_data = [\<lparr>Titulo = ''Dune'', Precio = 15, Categoria = Some ''Science Fiction'',
                          URL_de_la_imagen = base_url @ ''dune.jpg''\<rparr>],
      books_scraped = 1,
      books_json = Document (JArray [JString ''stale''])\<rparr>)"
  by (simp add: run_simps web_mixed_def pod_cheap_def pod_dune_def)


subsection \<open>Exceptions that leave the loops\<close>









subsection \<open>A page without entries\<close>

text \<open>
  Claim C3 against the code. Page 1 is fetched and holds no entry; the \<^verbatim>\<open>break\<close> of
  line 39 leaves the retry loop only, line 118 advances the page, and the run fetches
  page 2 and collects its entry.
\<close>

theorem empty_page_fetches_next:
  "scrape_books 2 web_gap WriteOk Absent 1 20 3 1 = Some (Inr (),
     \<lparr>requests_made = 3,
      trace = [PageGet (page_url 1), Log INFO NoMoreBooks,
               PageGet (page_url 2), BookGet (base_url @ ''dune/index.html''),
               OpenWrite ''books.json'', Log INFO (BooksSaved 1)],
      all_books_data = [\<lparr>Titulo = ''Dune'', Precio = 15, Categoria = Some ''Science Fiction'',
                          URL_de_la_imagen = base_url @ ''dune.jpg''\<rparr>],
      books_scraped = 1,
      books_json = Document (JArray [book_dict
         \<lparr>Titulo = ''Dune'', Precio = 15, Categoria = Some ''Science Fiction'',
           URL_de_la_imagen = base_url @ ''dune.jpg''\<rparr>])\<rparr>)"
  by (simp add: run_simps web_gap_def pod_dune_def)

lemma pagination_blank:
  assumes "int (books_scraped s) < N" "0 < R"
  shows "pagination fuel web_blank N plim R d page_num s = None"
  using assms(1)
proof (induction fuel arbitrary: page_num s)
  case 0
  then show ?case by simp
next
  case (Suc fuel)
  let ?s1 = "emit [Log INFO NoMoreBooks]
    (emit [PageGet (page_url page_num)] (s\<lparr>requests_made := Suc (requests_made s)\<rparr>))"
  obtain as where as: "[0..<R] = 0 # as"
    using assms(2) by (auto simp: upt_conv_Cons)
  have "page_attempts web_blank N plim R d (page_url page_num) [0..<R] s = (Inr PageBreak, ?s1)"
    unfolding as by (simp add: web_blank_def Let_def)
  moreover have "int (books_scraped ?s1) < N"
    using Suc.prems by (simp add: emit_def)
  ultimately show ?case
    using Suc.prems Suc.IH [of ?s1 "page_num + 1"] by simp
qed

lemma empty_catalogue_never_ends:
  assumes "0 < N" "0 < R"
  shows "scrape_books fuel web_blank wr old N plim R d = None"
  using pagination_blank [of "initial_bstate old" N R fuel plim d 1] assms
  by (simp add: scrape_books_def initial_bstate_def del: pagination.simps)


section \<open>Delays in the retry loops\<close>

lemma hn_paced_append: "hn_paced xs \<Longrightarrow> hn_paced ys \<Longrightarrow> hn_paced (xs @ ys)"
  by (simp add: hn_paced_def each_followed_append)

lemmas hn_paced_defs = hn_paced_def hn_failed_attempt_def hn_last_guarded_def gives_up_def

lemma start_attempts_paced:
  assumes "hn_paced tr" "\<forall>a \<in> set as. a < MAX_RETRIES"
  shows "hn_paced (snd (start_attempts w as tr))"
  using assms
proof (induction as arbitrary: tr)
  case Nil
  then show ?case by simp
next
  case (Cons a as)
  have a: "a < MAX_RETRIES" and rest: "\<forall>a \<in> set as. a < MAX_RETRIES"
    using Cons.prems(2) by simp_all
  have ok: "hn_paced (tr @ [Log INFO (DriverStartAttempt (a + 1)), DriverStart, Log INFO DriverStarted])"
    by (rule hn_paced_append [OF Cons.prems(1)]) (simp add: hn_paced_defs)
  have raised: "hn_paced (tr @ [Log INFO (DriverStartAttempt (a + 1)), DriverStart])"
    by (rule hn_paced_append [OF Cons.prems(1)]) (simp add: hn_paced_defs)
  have again: "hn_paced (tr @ [Log INFO (DriverStartAttempt (a + 1)), DriverStart,
      Log WARNING (DriverStartFailed (a + 1)), Sleep RETRY_DELAY])"
    if "int a < int MAX_RETRIES - 1"
    by (rule hn_paced_append [OF Cons.prems(1)]) (use that in \<open>simp add: hn_paced_defs\<close>)
  have last: "hn_paced (tr @ [Log INFO (DriverStartAttempt (a + 1)), DriverStart,
      Log WARNING (DriverStartFailed (a + 1)), Log ERROR DriverStartGivenUp])"
    if "\<not> int a < int MAX_RETRIES - 1"
    by (rule hn_paced_append [OF Cons.prems(1)]) (use that a in \<open>simp add: hn_paced_defs\<close>)
  show ?case
    using ok raised last Cons.IH [OF again rest]
    by (simp add: Let_def split: option.splits)
qed

lemma navigate_attempts_paced:
  assumes "hn_paced tr" "\<forall>a \<in> set as. a < MAX_RETRIES"
  shows "hn_paced (snd (navigate_attempts w as tr))"
  using assms
proof (induction as arbitrary: tr)
  case Nil
  then show ?case by simp
next
  case (Cons a as)
  have a: "a < MAX_RETRIES" and rest: "\<forall>a \<in> set as. a < MAX_RETRIES"
    using Cons.prems(2) by simp_all
  have ok: "hn_paced (tr @ [Log INFO (NavigationAttempt (a + 1)), DriverGet hn_url,
      Log INFO NavigationDone, Sleep RETRY_DELAY])"
    by (rule hn_paced_append [OF Cons.prems(1)]) (simp add: hn_paced_defs)
  have raised: "hn_paced (tr @ [Log INFO (NavigationAttempt (a + 1)), DriverGet hn_url])"
    by (rule hn_paced_append [OF Cons.prems(1)]) (simp add: hn_paced_defs)
  have again: "hn_paced (tr @ [Log INFO (NavigationAttempt (a + 1)), DriverGet hn_url,
      Log WARNING (NavigationFailed (a + 1)), Sleep RETRY_DELAY])"
    if "int a < int MAX_RETRIES - 1"
    by (rule hn_paced_append [OF Cons.prems(1)]) (use that in \<open>simp add: hn_paced_defs\<close>)
  have last: "hn_paced (tr @ [Log INFO (NavigationAttempt (a + 1)), DriverGet hn_url,
      Log WARNING (NavigationFailed (a + 1)), Log ERROR NavigationGivenUp, DriverQuit])"
    if "\<not> int a < int MAX_RETRIES - 1"
    by (rule hn_paced_append [OF Cons.prems(1)]) (use that a in \<open>simp add: hn_paced_defs\<close>)
  show ?case
    using ok raised last Cons.IH [OF again rest]
    by (simp add: Let_def split: option.splits)
qed

lemma find_attempts_paced:
  assumes "hn_paced tr" "\<forall>a \<in> set as. a < MAX_RETRIES"
  shows "hn_paced (snd (find_attempts w as tr))"
  using assms
proof (induction as arbitrary: tr)
  case Nil
  then show ?case by simp
next
  case (Cons a as)
  have a: "a < MAX_RETRIES" and rest: "\<forall>a \<in> set as. a < MAX_RETRIES"
    using Cons.prems(2) by simp_all
  have ok: "hn_paced (tr @ [Log INFO (RowsAttempt (a + 1)), FindRows, Log INFO (RowsFound n)])" for n
    by (rule hn_paced_append [OF Cons.prems(1)]) (simp add: hn_paced_defs)
  have empty: "hn_paced (tr @ [Log INFO (RowsAttempt (a + 1)), FindRows,
      Log WARNING RowsEmpty, Sleep RETRY_DELAY])"
    by (rule hn_paced_append [OF Cons.prems(1)]) (simp add: hn_paced_defs)
  have raised: "hn_paced (tr @ [Log INFO (RowsAttempt (a + 1)), FindRows])"
    by (rule hn_paced_append [OF Cons.prems(1)]) (simp add: hn_paced_defs)
  have again: "hn_paced (tr @ [Log INFO (RowsAttempt (a + 1)), FindRows,
      Log WARNING (RowsMissing (a + 1)), Sleep RETRY_DELAY])"
    if "int a < int MAX_RETRIES - 1"
    by (rule hn_paced_append [OF Cons.prems(1)]) (use that in \<open>simp add: hn_paced_defs\<close>)
  have last: "hn_paced (tr @ [Log INFO (RowsAttempt (a + 1)), FindRows,
      Log WARNING (RowsMissing (a + 1)), Log ERROR RowsGivenUp, DriverQuit])"
    if "\<not> int a < int MAX_RETRIES - 1"
    by (rule hn_paced_append [OF Cons.prems(1)]) (use that a in \<open>simp add: hn_paced_defs\<close>)
  show ?case
    using ok raised last Cons.IH [OF empty rest] Cons.IH [OF again rest]
    by (simp add: Let_def split: sum.splits)
qed

lemma rows_loop_paced:
  assumes "hn_paced tr"
  shows "hn_paced (snd (rows_loop i rows items tr))"
  using assms
proof (induction rows arbitrary: i items tr)
  case Nil
  then show ?case by simp
next
  case (Cons row rows)
  have one: "hn_paced (tr @ [row_handler e i])" for e
    by (rule hn_paced_append [OF Cons.prems]) (simp add: hn_paced_defs row_handler_def)
  have two: "hn_paced (tr @ [Log INFO (ItemProcessed (i + 1))])"
    by (rule hn_paced_append [OF Cons.prems]) (simp add: hn_paced_defs)
  have three: "hn_paced (tr @ [Log l m, Log INFO (ItemProcessed (i + 1))])"
    if "m = ScoreMissing (i + 1) \<or> m = ScoreUnparseable (i + 1)" for l m
    by (rule hn_paced_append [OF Cons.prems]) (use that in \<open>auto simp: hn_paced_defs\<close>)
  show ?case
    using Cons.IH [OF one] Cons.IH [OF two] Cons.IH [OF three]
    by (simp split: sum.splits prod.splits)
qed

lemma scrape_hacker_news_paced:
  "hn_paced (htrace (snd (scrape_hacker_news w f old)))"
proof -
  have rng: "\<forall>a \<in> set [0..<MAX_RETRIES]. a < MAX_RETRIES"
    by simp
  have p0: "hn_paced [Log INFO HnStarting]"
    by (simp add: hn_paced_defs)
  obtain fl tr where st: "start_attempts w [0..<MAX_RETRIES] [Log INFO HnStarting] = (fl, tr)"
    by (cases "start_attempts w [0..<MAX_RETRIES] [Log INFO HnStarting]")
  have p1: "hn_paced tr"
    using start_attempts_paced [OF p0 rng, of w] st by simp
  obtain fl2 tr2 where nav: "navigate_attempts w [0..<MAX_RETRIES] tr = (fl2, tr2)"
    by (cases "navigate_attempts w [0..<MAX_RETRIES] tr")
  have p2: "hn_paced tr2"
    using navigate_attempts_paced [OF p1 rng, of w] nav by simp
  obtain fl3 tr3 where fnd: "find_attempts w [0..<MAX_RETRIES] tr2 = (fl3, tr3)"
    by (cases "find_attempts w [0..<MAX_RETRIES] tr2")
  have p3: "hn_paced tr3"
    using find_attempts_paced [OF p2 rng, of w] fnd by simp
  have p4: "hn_paced tr4" if "rows_loop 0 rows [] tr3 = (items, tr4)" for rows items tr4
    using rows_loop_paced [OF p3, of 0 rows "[]"] that by simp
  have fin: "hn_paced (t @ es)"
    if "hn_paced t" "es = [DriverQuit, Log INFO DriverClosed] \<or>
       es = [Log ERROR GeneralError, DriverQuit, Log INFO DriverClosed] \<or>
       es = [Log WARNING NothingProcessed, DriverQuit, DriverQuit, Log INFO DriverClosed] \<or>
       es = [OpenWrite f, Log INFO (HnSaved n), DriverQuit, Log INFO DriverClosed] \<or>
       es = [OpenWrite f, Log ERROR HnWriteFailed, DriverQuit, Log INFO DriverClosed]"
    for t es n
    by (rule hn_paced_append [OF that(1)]) (use that(2) in \<open>auto simp: hn_paced_defs\<close>)
  show ?thesis
    using p1 p2 p3 st nav fnd
    by (auto simp: scrape_hacker_news_def try_body_def save_headlines_def
        split: prod.splits flow.splits sum.splits bool.splits write_outcome.splits
        intro!: fin dest: p4)
qed


lemma web_down_run:
  "scrape_books 1 web_down WriteOk Absent 1 20 3 1 = Some (Inr (),
     \<lparr>requests_made = 3,
      trace = [PageGet (page_url 1), Log ERROR (PageRequestError 1), Sleep 1,
               PageGet (page_url 1), Log ERROR (PageRequestError 2), Sleep 1,
               PageGet (page_url 1), Log ERROR (PageRequestError 3), Sleep 1,
               Log ERROR (PageGivenUp (page_url 1)),
               OpenWrite ''books.json'', Log INFO (BooksSaved 0)],
      all_books_data = [], books_scraped = 0, books_json = Document (JArray [])\<rparr>)"
  by (simp add: run_simps web_down_def)

text \<open>
  Claim C7, as the code has it. In every run of \<^verbatim>\<open>scrape_books\<close> that ends, each
  failed attempt at a page or at a category, the last one included, is followed at once
  by the delay \<^verbatim>\<open>retry_delay\<close>. In every run of \<^verbatim>\<open>scrape_hacker_news\<close>, each
  failed attempt is followed at once by the delay \<open>RETRY_DELAY\<close>, except the attempt
  numbered \<open>MAX_RETRIES\<close> of the session start, of the navigation and of the exception
  branch of the row location: that one is followed at once by the error record with
  which the loop gives up, and by no delay. An empty row list is followed by the delay
  on every attempt.
\<close>

theorem delay_after_failed_attempt:
  "(scrape_books fuel get wr old N plim R d = Some (r, s) \<longrightarrow>
      each_followed books_failed_attempt (\<lambda>e. e = Sleep d) (trace s)) \<and>
   each_followed (\<lambda>e. hn_failed_attempt e \<and> \<not> hn_last_guarded e) (\<lambda>e. e = Sleep RETRY_DELAY)
     (htrace (snd (scrape_hacker_news w f old'))) \<and>
   each_followed hn_last_guarded gives_up (htrace (snd (scrape_hacker_news w f old')))"
  using scrape_books_invariant(2) [of fuel get wr old N plim R d r s]
    scrape_hacker_news_paced [of w f old']
  by (simp add: hn_paced_def)

theorem delay_after_failed_attempt_witness:
  "(\<exists>s. scrape_books 1 web_down WriteOk Absent 1 20 3 1 = Some (Inr (), s) \<and>
        Log ERROR (PageRequestError 3) \<in> set (trace s) \<and>
        each_followed books_failed_attempt (\<lambda>e. e = Sleep 1) (trace s)) \<and>
   (\<exists>s. scrape_books 1 web_mixed WriteOk Absent 1 20 3 1 = Some (Inr (), s) \<and>
        Log WARNING (CategoryAttemptFailed 3) \<in> set (trace s) \<and>
        each_followed books_failed_attempt (\<lambda>e. e = Sleep 1) (trace s))"
proof -
  obtain s where run: "scrape_books 1 web_down WriteOk Absent 1 20 3 1 = Some (Inr (), s)"
      and last: "Log ERROR (PageRequestError 3) \<in> set (trace s)"
    using web_down_run by simp
  have 1: "each_followed books_failed_attempt (\<lambda>e. e = Sleep 1) (trace s)"
    using delay_after_failed_attempt
      [where fuel = 1 and get = web_down and wr = WriteOk and old = Absent and N = 1
         and plim = 20 and R = 3 and d = 1 and r = "Inr ()" and s = s] run
    by simp
  obtain s' where run': "scrape_books 1 web_mixed WriteOk Absent 1 20 3 1 = Some (Inr (), s')"
      and last': "Log WARNING (CategoryAttemptFailed 3) \<in> set (trace s')"
    using web_mixed_run by simp
  have 2: "each_followed books_failed_attempt (\<lambda>e. e = Sleep 1) (trace s')"
    using delay_after_failed_attempt
      [where fuel = 1 and get = web_mixed and wr = WriteOk and old = Absent and N = 1
         and plim = 20 and R = 3 and d = 1 and r = "Inr ()" and s = s'] run'
    by simp
  show ?thesis
    using run last 1 run' last' 2 by blast
qed

text \<open>
  Claim C7 as stated fails: when the browser fails to start three times, the third
  failed attempt is followed by the error record and the return, not by a delay.
\<close>

theorem no_delay_after_last_attempt_counterexample:
  "htrace (snd (scrape_hacker_news world_no_driver ''hacker_news.json'' Absent)) =
     [Log INFO HnStarting,
      Log INFO (DriverStartAttempt 1), DriverStart, Log WARNING (DriverStartFailed 1), Sleep 2,
      Log INFO (DriverStartAttempt 2), DriverStart, Log WARNING (DriverStartFailed 2), Sleep 2,
      Log INFO (DriverStartAttempt 3), DriverStart, Log WARNING (DriverStartFailed 3),
      Log ERROR DriverStartGivenUp] \<and>
   \<not> each_followed hn_failed_attempt (\<lambda>e. e = Sleep RETRY_DELAY)
       (htrace (snd (scrape_hacker_news world_no_driver ''hacker_news.json'' Absent)))"
  by (simp add: world_no_driver_def upt3 scrape_hacker_news_def
      is_webdriver_exception_def MAX_RETRIES_def RETRY_DELAY_def Let_def hn_failed_attempt_def)

section \<open>The target count on a static site\<close>

lemma page_gets_append [simp]: "page_gets (xs @ ys) = page_gets xs @ page_gets ys"
  by (simp add: page_gets_def List.map_filter_def)

lemma page_gets_simps [simp]:
  "page_gets [] = []" "page_gets (PageGet u # tr) = u # page_gets tr"
  "page_gets (BookGet u # tr) = page_gets tr" "page_gets (Sleep d # tr) = page_gets tr"
  "page_gets (Log l m # tr) = page_gets tr" "page_gets (OpenWrite f # tr) = page_gets tr"
  by (simp_all add: page_gets_def List.map_filter_def)

















end
